theory Spec2Isabelle
  imports Complex_Main "HOL-Library.AList"
begin

section \<open>Python values and errors\<close>

text \<open>
  Exceptions of the Python source are values: every function that can raise returns
  \<open>error + 'a\<close>, with \<open>Inl\<close> carrying the exception class.
\<close>

datatype error =
    IndexError
  | ValueError
  | TypeError
  | AttributeError
  | AssertionError
  | KeyError
  | ZeroDivisionError
  | NotImplementedError
  | RuntimeError

text \<open>
  Indexing of a Python sequence by an integer: a negative index counts from the end,
  an index outside \<open>[-len, len)\<close> raises \<open>IndexError\<close>.
\<close>

definition py_index :: "'a list \<Rightarrow> int \<Rightarrow> error + 'a" where
  "py_index xs i =
     (if 0 \<le> i \<and> i < int (length xs) then Inr (xs ! nat i)
      else if i < 0 \<and> - int (length xs) \<le> i then Inr (xs ! nat (int (length xs) + i))
      else Inl IndexError)"

section \<open>utils.py: resolving a global row index\<close>






section \<open>Python sequences and arithmetic\<close>

text \<open>
  \<open>range(start, stop, step)\<close> as the list of its elements: \<open>ValueError\<close> for a zero step,
  otherwise \<open>start + k * step\<close> for \<open>k\<close> below the length Python computes for the range.
\<close>

definition py_range :: "int \<Rightarrow> int \<Rightarrow> int \<Rightarrow> error + int list" where
  "py_range start stop step =
     (if step = 0 then Inl ValueError
      else if 0 < step
      then Inr (map (\<lambda>k. start + int k * step) [0..<nat ((stop - start + step - 1) div step)])
      else Inr (map (\<lambda>k. start + int k * step) [0..<nat ((start - stop - step - 1) div (- step))]))"


section \<open>Task graphs\<close>

text \<open>
  The Python values that the modelled functions inspect: \<open>None\<close>, integers, strings, lists,
  and concrete awkward arrays (\<open>ak.Array\<close>, as the list of their rows). A metadata placeholder
  (the typetracer \<open>ak.Array\<close> of a collection) is kept apart and is opaque: it is represented by
  the text of its form.
\<close>

datatype pyval =
    VNone
  | VInt int
  | VStr string
  | VList "pyval list"
  | VAwkward "pyval list"

datatype meta = Form string

text \<open>
  Graph keys: \<open>(name, i)\<close> for partition \<open>i\<close> of an Array, the bare \<open>name\<close> for a Scalar or
  Record. Callables are compared by identity in the source (\<open>== operator.getitem\<close>);
  \<open>OperatorGetitem\<close> and \<open>Apply\<close> (\<open>dask.utils.apply\<close>) are the two that the code names, \<open>Fn\<close> is
  any other named function and \<open>Partial\<close> a \<open>functools.partial\<close>. A task is a call on
  arguments (keys, lists of keys, literals), an alias of another key, or literal data.
\<close>

datatype key = KPart string nat | KName string

datatype callable =
    OperatorGetitem
  | Apply
  | Fn string
  | Partial callable "(string \<times> pyval) list"

datatype targ = Ref key | RefList "key list" | Lit pyval

datatype task = Call callable "targ list" | Alias key | Data pyval

text \<open>
  A \<open>dask.blockwise.Blockwise\<close> layer: \<open>bw_task\<close> is \<open>dsk[output]\<close>, the one symbolic task
  of the layer, whose head is the function (or \<open>apply\<close> when keyword arguments are present);
  \<open>indices\<close> pairs every argument (a collection name or a literal) with its index (\<open>'i'\<close> or
  \<open>None\<close>).
\<close>

datatype blockwise_arg =
    BToken nat
  | BTokens "nat list"
  | BFunc callable
  | BKwargs "(string \<times> pyval) list"

record Blockwise =
  bw_output :: string
  bw_task :: "callable \<times> blockwise_arg list"
  indices :: "(pyval \<times> string option) list"
  numblocks :: "(string \<times> int) list"

text \<open>
  Modelled from the spec: \<open>dask_awkward.layers.AwkwardIOLayer\<close> is imported by
  \<open>lib/optimize.py\<close> and is not among the sources. The spec describes a source layer as
  produced by a source-reading collaborator that optionally exposes a rebuild narrowed to a
  set of fields. The model keeps, for the layer and for its reader \<open>io_func\<close>, the set of
  columns it is narrowed to (\<open>None\<close>: all columns), and whether the reader has a
  \<open>project_columns\<close> method. The list that the source passes (\<open>list(seed_columns)\<close>) is kept as
  the set it was built from.
\<close>

record io_func =
  fn_label :: string
  has_project_columns :: bool
  fn_columns :: "pyval set option"

record AwkwardIOLayer =
  io_name :: string
  io_columns :: "pyval set option"
  io_func :: io_func

text \<open>
  A layer is a plain dictionary of tasks, a Blockwise layer or a source layer. A
  \<open>HighLevelGraph\<close> holds two dictionaries keyed by layer name, as association lists in
  insertion order: the layers, and for each layer the set of layers it depends on.
\<close>

datatype layer =
    Materialized "(key \<times> task) list"
  | BlockwiseLayer Blockwise
  | IOLayer AwkwardIOLayer

record HighLevelGraph =
  layers :: "(string \<times> layer) list"
  dependencies :: "(string \<times> string set) list"

section \<open>core.py: the collections\<close>

text \<open>
  \<open>Scalar\<close> (and its subclass \<open>Record\<close>) has a graph, a name and optional metadata; \<open>Array\<close>
  adds the divisions, a tuple of \<open>int | None\<close>.
\<close>

record Scalar =
  dask :: HighLevelGraph
  name :: string
  meta :: "meta option"

record Array = Scalar +
  divisions :: "int option list"


text \<open>
  The keys accepted by \<open>Array.partitions\<close>: an integer, a slice \<open>start:stop:step\<close> (each part
  optional), or a list of integers.
\<close>

datatype selector =
    SelInt int
  | SelSlice "int option" "int option" "int option"
  | SelList "int list"

text \<open>
  The collaborators outside the repository, as parameters of the model: the scheduler
  (\<open>__dask_scheduler__\<close>, called as \<open>scheduler(graph, key)\<close>), the value engine's placeholder
  constructors and its selection on placeholders, and \<open>dask.base.tokenize\<close>, a function of the
  tokens of its arguments (a collection is tokenized by its name). Every call of the
  scheduler is recorded as a \<open>request\<close>, so that functions that may compute return their result
  together with the list of requests they made.
\<close>

datatype token =
    TokCollection string
  | TokVal pyval
  | TokInt int
  | TokFn callable
  | TokSel selector
  | TokKw string token

type_synonym request = "HighLevelGraph \<times> key"

record engine =
  scheduler :: "HighLevelGraph \<Rightarrow> key \<Rightarrow> error + pyval"
  typetracer :: "pyval \<Rightarrow> meta"
  typetracer_forget_length :: "pyval \<Rightarrow> meta"
  meta_getitem :: "meta \<Rightarrow> meta \<Rightarrow> error + meta"
  tokenize :: "token list \<Rightarrow> string"

text \<open>
  Dictionaries in insertion order: \<open>d[k] = v\<close> replaces the value in place or appends the key,
  \<open>d.update(other)\<close> assigns the items of \<open>other\<close> in order, \<open>d[k]\<close> raises \<open>KeyError\<close> for
  a missing key.
\<close>

abbreviation dict_set :: "'k \<Rightarrow> 'v \<Rightarrow> ('k \<times> 'v) list \<Rightarrow> ('k \<times> 'v) list" where
  "dict_set \<equiv> AList.update"

definition dict_update :: "('k \<times> 'v) list \<Rightarrow> ('k \<times> 'v) list \<Rightarrow> ('k \<times> 'v) list" where
  "dict_update d other = fold (\<lambda>(k, v). dict_set k v) other d"

definition dict_get :: "('k \<times> 'v) list \<Rightarrow> 'k \<Rightarrow> error + 'v" where
  "dict_get d k = (case map_of d k of None \<Rightarrow> Inl KeyError | Some v \<Rightarrow> Inr v)"

text \<open>
  \<open>HighLevelGraph.from_collections(name, layer, dependencies)\<close> of dask, each dependency given
  by its graph and its \<open>__dask_layers__()\<close>. With a single dependency dask copies its layers and
  assigns the new layer; otherwise it starts from the new layer and updates with the layers
  of every dependency.
\<close>

definition from_collections ::
  "string \<Rightarrow> layer \<Rightarrow> (HighLevelGraph \<times> string list) list \<Rightarrow> HighLevelGraph" where
  "from_collections nm lay deps =
     (case deps of
        [(graph, ls)] \<Rightarrow>
          \<lparr>layers = dict_set nm lay (layers graph),
           dependencies = dict_set nm (set ls) (dependencies graph)\<rparr>
      | _ \<Rightarrow>
          \<lparr>layers = fold (\<lambda>(graph, ls) acc. dict_update acc (layers graph)) deps [(nm, lay)],
           dependencies =
             fold (\<lambda>(graph, ls) acc.
                     (let acc' = dict_update acc (dependencies graph)
                      in dict_set nm ((case map_of acc' nm of None \<Rightarrow> {} | Some s \<Rightarrow> s) \<union> set ls) acc'))
                  deps [(nm, {})]\<rparr>)"

text \<open>
  The properties of \<open>Array\<close>: \<open>known_divisions\<close>, \<open>npartitions\<close> (\<open>len(divisions) - 1\<close>),
  \<open>__dask_keys__\<close> and \<open>__dask_layers__\<close>; and of \<open>Scalar\<close>.
\<close>

definition known_divisions :: "Array \<Rightarrow> bool" where
  "known_divisions a = (0 < length (divisions a) \<and> None \<notin> set (divisions a))"

definition npartitions :: "Array \<Rightarrow> int" where
  "npartitions a = int (length (divisions a)) - 1"

definition dask_keys :: "Array \<Rightarrow> key list" where
  "dask_keys a = map (KPart (name a)) [0..<nat (npartitions a)]"

definition array_dask_layers :: "Array \<Rightarrow> string list" where
  "array_dask_layers a = [name a]"



text \<open>
  \<open>_first_partition\<close>, \<open>_get_typetracer\<close> and \<open>new_array_object\<close>. Without metadata,
  \<open>new_array_object\<close> computes the first partition to derive it; \<open>AttributeError\<close>,
  \<open>AssertionError\<close> and \<open>TypeError\<close> are caught and leave the metadata \<open>None\<close>, any other
  exception propagates.
\<close>

definition first_partition :: "engine \<Rightarrow> Array \<Rightarrow> (error + pyval) \<times> request list" where
  "first_partition E array =
     (case py_index (dask_keys array) 0 of
        Inl e \<Rightarrow> (Inl e, [])
      | Inr k \<Rightarrow> (scheduler E (dask array) k, [(dask array, k)]))"

definition get_typetracer :: "engine \<Rightarrow> Array \<Rightarrow> (error + meta) \<times> request list" where
  "get_typetracer E array =
     (case meta array of
        Some m \<Rightarrow> (Inr m, [])
      | None \<Rightarrow>
          (case first_partition E array of
             (Inl e, rq) \<Rightarrow> (Inl e, rq)
           | (Inr first_part, rq) \<Rightarrow>
               (case first_part of
                  VAwkward rows \<Rightarrow> (Inr (typetracer E first_part), rq)
                | _ \<Rightarrow> (Inl TypeError, rq))))"

definition new_array_object ::
  "engine \<Rightarrow> HighLevelGraph \<Rightarrow> string \<Rightarrow> meta option \<Rightarrow> int option \<Rightarrow> int option list option
     \<Rightarrow> (error + Array) \<times> request list" where
  "new_array_object E dsk nm m nparts divs =
     (case (case (divs, nparts) of
              (None, Some n) \<Rightarrow> Inr (replicate (nat (n + 1)) None)
            | (Some d, Some n) \<Rightarrow> Inl ValueError
            | (None, None) \<Rightarrow> Inl ValueError
            | (Some d, None) \<Rightarrow> Inr d) of
        Inl e \<Rightarrow> (Inl e, [])
      | Inr d \<Rightarrow>
          (let array = \<lparr>dask = dsk, name = nm, meta = m, divisions = d\<rparr>
           in if m = None
              then (case get_typetracer E array of
                      (Inr tt, rq) \<Rightarrow> (Inr (array\<lparr>meta := Some tt\<rparr>), rq)
                    | (Inl e, rq) \<Rightarrow>
                        if e \<in> {AttributeError, AssertionError, TypeError}
                        then (Inr (array\<lparr>meta := None\<rparr>), rq)
                        else (Inl e, rq))
              else (Inr array, [])))"

section \<open>io.py and core.py: from_awkward\<close>

text \<open>
  \<open>xs[start:stop]\<close> with both bounds given. \<open>from_awkward_locs\<close> is the computation of
  \<open>chunksize\<close> and \<open>locs\<close> and \<open>from_awkward_llg\<close> the dictionary comprehension of
  \<open>from_awkward\<close>; the function of \<open>io.py\<close> and the one of \<open>core.py\<close> differ in the placeholder
  only (\<open>typetracer.forget_length()\<close> against \<open>typetracer\<close>).
\<close>

definition py_getslice :: "'a list \<Rightarrow> int \<Rightarrow> int \<Rightarrow> 'a list" where
  "py_getslice xs start stop =
     (let n = int (length xs);
          a = (if start < 0 then max (start + n) 0 else min start n);
          b = (if stop < 0 then max (stop + n) 0 else min stop n)
      in take (nat (b - a)) (drop (nat a) xs))"





section \<open>core.py: reduction with aggregation\<close>




section \<open>Examples\<close>

text \<open>
  A concrete engine for evaluating the model on examples: the scheduler returns an empty
  array for every key, every placeholder has the same form, and every token is the same.
\<close>

definition example_engine :: engine where
  "example_engine =
     \<lparr>scheduler = (\<lambda>g k. Inr (VAwkward [])), typetracer = (\<lambda>v. Form ''typetracer''),
      typetracer_forget_length = (\<lambda>v. Form ''typetracer''),
      meta_getitem = (\<lambda>a b. Inr a), tokenize = (\<lambda>ts. ''token'')\<rparr>"

text \<open>An Array of four partitions with known divisions, for evaluating examples.\<close>

definition example_array :: Array where
  "example_array =
     \<lparr>dask = \<lparr>layers = [(''src'', Materialized [(KPart ''src'' 0, Data (VAwkward [])),
                                              (KPart ''src'' 1, Data (VAwkward [])),
                                              (KPart ''src'' 2, Data (VAwkward [])),
                                              (KPart ''src'' 3, Data (VAwkward []))])],
              dependencies = [(''src'', {})]\<rparr>,
      name = ''src'', meta = Some (Form ''typetracer''),
      divisions = [Some 0, Some 3, Some 6, Some 9, Some 12]\<rparr>"

section \<open>core.py: selection and map_partitions\<close>

text \<open>
  \<open>Array._getitem_boolean_lazy_array\<close>: the alignment check, the metadata of the result
  (\<open>operator.getitem(self.meta, key.meta)\<close>, which raises \<open>TypeError\<close> on \<open>None\<close>), one
  \<open>getitem\<close> task per pair of aligned keys, and \<open>new_array_object\<close> with
  \<open>divisions=self.divisions\<close>.
\<close>

definition getitem_boolean_lazy_array ::
  "engine \<Rightarrow> Array \<Rightarrow> Array \<Rightarrow> (error + Array) \<times> request list" where
  "getitem_boolean_lazy_array E self key =
     (if (if known_divisions key \<and> known_divisions self
          then divisions key \<noteq> divisions self
          else npartitions key \<noteq> npartitions self)
      then (Inl ValueError, [])
      else
        (case (case meta key of
                 None \<Rightarrow> Inr None
               | Some km \<Rightarrow>
                   (case meta self of
                      None \<Rightarrow> Inl TypeError
                    | Some sm \<Rightarrow>
                        (case meta_getitem E sm km of
                           Inl e \<Rightarrow> Inl e
                         | Inr m \<Rightarrow> Inr (Some m)))) of
           Inl e \<Rightarrow> (Inl e, [])
         | Inr new_meta \<Rightarrow>
             (let s_keys = dask_keys self;
                  k_keys = dask_keys key;
                  nm = ''getitem-'' @ tokenize E [TokCollection (name self), TokCollection (name key)];
                  dsk = map (\<lambda>(i, (sk, kk)). (KPart nm i, Call OperatorGetitem [Ref sk, Ref kk]))
                          (enumerate 0 (zip s_keys k_keys));
                  hlg = from_collections nm (Materialized dsk)
                          [(dask self, array_dask_layers self), (dask key, array_dask_layers key)]
              in new_array_object E hlg nm new_meta None (Some (divisions self)))))"

text \<open>
  The positional arguments of \<open>map_partitions\<close>: an Array, another dask collection, or a
  plain value. Keyword arguments are plain values. \<open>partitionwise_pairs\<close> is the loop of
  \<open>partitionwise_layer\<close>, \<open>upstream_blockwise\<close> the layer that \<open>dask.blockwise.blockwise\<close>
  builds from the pairs, \<open>funcname\<close> is \<open>dask.utils.funcname\<close>.
\<close>

definition scalar_dask_layers :: "Scalar \<Rightarrow> string list" where
  "scalar_dask_layers s =
     (if length (layers (dask s)) = 1 then map fst (layers (dask s)) else [name s])"

datatype mp_arg = ArgArray Array | ArgCollection Scalar | ArgValue pyval

fun partitionwise_pairs ::
  "mp_arg list \<Rightarrow> (pyval \<times> string option) list \<Rightarrow> (string \<times> int) list
     \<Rightarrow> error + ((pyval \<times> string option) list \<times> (string \<times> int) list)" where
  "partitionwise_pairs [] pairs nb = Inr (pairs, nb)"
| "partitionwise_pairs (ArgArray a # rest) pairs nb =
     partitionwise_pairs rest (pairs @ [(VStr (name a), Some ''i'')])
       (dict_set (name a) (npartitions a) nb)"
| "partitionwise_pairs (ArgCollection c # rest) pairs nb = Inl NotImplementedError"
| "partitionwise_pairs (ArgValue v # rest) pairs nb =
     partitionwise_pairs rest (pairs @ [(v, None)]) nb"

definition upstream_blockwise ::
  "callable \<Rightarrow> string \<Rightarrow> (pyval \<times> string option) list \<Rightarrow> (string \<times> int) list
     \<Rightarrow> (string \<times> pyval) list \<Rightarrow> Blockwise" where
  "upstream_blockwise func nm pairs nb kwargs =
     \<lparr>bw_output = nm,
      bw_task = (if kwargs = []
                 then (func, map BToken [0..<length pairs])
                 else (Apply, [BFunc func, BTokens [0..<length pairs], BKwargs kwargs])),
      indices = pairs,
      numblocks = nb\<rparr>"

definition partitionwise_layer ::
  "callable \<Rightarrow> string \<Rightarrow> mp_arg list \<Rightarrow> (string \<times> pyval) list \<Rightarrow> error + Blockwise" where
  "partitionwise_layer func nm args kwargs =
     (case partitionwise_pairs args [] [] of
        Inl e \<Rightarrow> Inl e
      | Inr (pairs, nb) \<Rightarrow> Inr (upstream_blockwise func nm pairs nb kwargs))"

fun funcname :: "callable \<Rightarrow> string" where
  "funcname (Partial g kw) = funcname g"
| "funcname (Fn n) = (if n = ''<lambda>'' then ''lambda'' else take 50 n)"
| "funcname OperatorGetitem = ''getitem''"
| "funcname Apply = ''apply''"

text \<open>
  \<open>map_partitions\<close>: the token and the name, the layer, the dependencies (the arguments that
  are dask collections), the graph, and \<open>new_array_object\<close> with
  \<open>divisions=args[0].divisions\<close>; a plain value has no attribute \<open>divisions\<close>.
\<close>

fun mp_arg_token :: "mp_arg \<Rightarrow> token" where
  "mp_arg_token (ArgArray a) = TokCollection (name a)"
| "mp_arg_token (ArgCollection c) = TokCollection (name c)"
| "mp_arg_token (ArgValue v) = TokVal v"

fun mp_arg_dependency :: "mp_arg \<Rightarrow> (HighLevelGraph \<times> string list) list" where
  "mp_arg_dependency (ArgArray a) = [(dask a, array_dask_layers a)]"
| "mp_arg_dependency (ArgCollection c) = [(dask c, scalar_dask_layers c)]"
| "mp_arg_dependency (ArgValue v) = []"

fun mp_arg_divisions :: "mp_arg \<Rightarrow> error + int option list" where
  "mp_arg_divisions (ArgArray a) = Inr (divisions a)"
| "mp_arg_divisions (ArgCollection c) = Inl AttributeError"
| "mp_arg_divisions (ArgValue v) = Inl AttributeError"

definition map_partitions ::
  "engine \<Rightarrow> callable \<Rightarrow> mp_arg list \<Rightarrow> string option \<Rightarrow> meta option \<Rightarrow> (string \<times> pyval) list
     \<Rightarrow> (error + Array) \<times> request list" where
  "map_partitions E func args name_opt m kwargs =
     (let token = tokenize E (TokFn func # map mp_arg_token args @
                              map (\<lambda>(k, v). TokKw k (TokVal v)) kwargs);
          nm0 = (case name_opt of
                   None \<Rightarrow> funcname func
                 | Some n \<Rightarrow> if n = [] then funcname func else n);
          nm = nm0 @ ''-'' @ token
      in case partitionwise_layer func nm args kwargs of
           Inl e \<Rightarrow> (Inl e, [])
         | Inr lay \<Rightarrow>
             (let deps = concat (map mp_arg_dependency args);
                  hlg = from_collections nm (BlockwiseLayer lay) deps
              in case py_index args 0 of
                   Inl e \<Rightarrow> (Inl e, [])
                 | Inr arg0 \<Rightarrow>
                     (case mp_arg_divisions arg0 of
                        Inl e \<Rightarrow> (Inl e, [])
                      | Inr d \<Rightarrow> new_array_object E hlg nm m None (Some d))))"

section \<open>core.py: selecting partitions\<close>

text \<open>
  \<open>slice.indices(len)\<close> of Python, and \<open>dask.array.slicing.normalize_index\<close> on a
  one-dimensional shape: an integer or a list element outside \<open>[-n, n)\<close> raises \<open>IndexError\<close>,
  negative ones are shifted by \<open>n\<close>, a slice with step 0 raises \<open>ValueError\<close>.
  \<open>keys_array_getitem\<close> is \<open>self.keys_array[index].tolist()\<close> after integers have been turned
  into the slice \<open>k:k+1\<close>.
\<close>

definition slice_indices ::
  "int option \<Rightarrow> int option \<Rightarrow> int option \<Rightarrow> int \<Rightarrow> error + (int \<times> int \<times> int)" where
  "slice_indices start stop step len =
     (let stp = (case step of None \<Rightarrow> 1 | Some s \<Rightarrow> s)
      in if stp = 0 then Inl ValueError
         else
           (let lower = (if stp < 0 then - 1 else 0);
                upper = (if stp < 0 then len - 1 else len);
                st = (case start of
                        None \<Rightarrow> (if stp < 0 then upper else lower)
                      | Some s \<Rightarrow> (if s < 0 then max (s + len) lower else min s upper));
                sp = (case stop of
                        None \<Rightarrow> (if stp < 0 then lower else upper)
                      | Some s \<Rightarrow> (if s < 0 then max (s + len) lower else min s upper))
            in Inr (st, sp, stp)))"

definition normalize_index :: "selector \<Rightarrow> int \<Rightarrow> error + selector" where
  "normalize_index idx n =
     (case idx of
        SelInt i \<Rightarrow>
          if n \<le> i \<or> i < - n then Inl IndexError
          else Inr (SelInt (if i < 0 then i + n else i))
      | SelSlice a b c \<Rightarrow>
          (case slice_indices a b c n of
             Inl e \<Rightarrow> Inl e
           | Inr r \<Rightarrow> Inr (SelSlice a b c))
      | SelList xs \<Rightarrow>
          if list_ex (\<lambda>i. n \<le> i \<or> i < - n) xs then Inl IndexError
          else Inr (SelList (map (\<lambda>i. if i < 0 then i + n else i) xs)))"

definition keys_array_getitem :: "key list \<Rightarrow> selector \<Rightarrow> error + key list" where
  "keys_array_getitem keys raw =
     (case raw of
        SelInt k \<Rightarrow> Inr (py_getslice keys k (k + 1))
      | SelSlice a b c \<Rightarrow>
          (case slice_indices a b c (int (length keys)) of
             Inl e \<Rightarrow> Inl e
           | Inr (st, sp, stp) \<Rightarrow>
               (case py_range st sp stp of
                  Inl e \<Rightarrow> Inl e
                | Inr js \<Rightarrow> Inr (map (\<lambda>j. keys ! nat j) js)))
      | SelList xs \<Rightarrow> Inr (map (\<lambda>j. keys ! nat j) xs))"

text \<open>
  \<open>Array._partitions\<close>: the new layer maps \<open>(name, i)\<close> to the \<open>i\<close>-th selected key;
  \<open>partitions_new_divisions\<close> is the choice between the two-element divisions and the
  all-\<open>None\<close> divisions; no metadata is passed to \<open>new_array_object\<close>.
\<close>

definition partitions_layer :: "string \<Rightarrow> key list \<Rightarrow> (key \<times> task) list" where
  "partitions_layer nm new_keys = map (\<lambda>(i, k). (KPart nm i, Alias k)) (enumerate 0 new_keys)"

definition partitions_new_divisions ::
  "Array \<Rightarrow> selector \<Rightarrow> key list \<Rightarrow> error + int option list" where
  "partitions_new_divisions self raw new_keys =
     (case raw of
        SelInt r \<Rightarrow>
          if known_divisions self
          then (case py_index (divisions self) (r + 1) of
                  Inl e \<Rightarrow> Inl e
                | Inr hi \<Rightarrow>
                    (case py_index (divisions self) r of
                       Inl e \<Rightarrow> Inl e
                     | Inr lo \<Rightarrow>
                         (case (hi, lo) of
                            (Some h, Some l) \<Rightarrow> Inr [Some 0, Some (h - l)]
                          | _ \<Rightarrow> Inl TypeError)))
          else Inr (replicate (length new_keys + 1) None)
      | _ \<Rightarrow> Inr (replicate (length new_keys + 1) None))"

definition partitions ::
  "engine \<Rightarrow> Array \<Rightarrow> selector \<Rightarrow> (error + Array) \<times> request list" where
  "partitions E self index =
     (let token = tokenize E [TokCollection (name self), TokSel index]
      in case normalize_index index (npartitions self) of
           Inl e \<Rightarrow> (Inl e, [])
         | Inr raw \<Rightarrow>
             (let nm = ''partitions-'' @ token
              in case keys_array_getitem (dask_keys self) raw of
                   Inl e \<Rightarrow> (Inl e, [])
                 | Inr new_keys \<Rightarrow>
                     (let dsk = partitions_layer nm new_keys;
                          graph = from_collections nm (Materialized dsk)
                                    [(dask self, array_dask_layers self)]
                      in case partitions_new_divisions self raw new_keys of
                           Inl e \<Rightarrow> (Inl e, [])
                         | Inr new_divisions \<Rightarrow>
                             new_array_object E graph nm None None (Some new_divisions))))"

section \<open>lib/optimize.py: column projection\<close>

text \<open>
  \<open>is_pio\<close> is the test of the list comprehension that collects \<open>pio_layer_names\<close>;
  \<open>is_getitem\<close> and \<open>requested_columns\<close> are \<open>_is_getitem\<close> and \<open>_requested_columns\<close>.
  A set can only hold hashable values: lists and arrays raise \<open>TypeError\<close>.
\<close>

definition is_pio :: "layer \<Rightarrow> bool" where
  "is_pio v = (case v of IOLayer l \<Rightarrow> has_project_columns (io_func l) | _ \<Rightarrow> False)"

definition pio_layer_names :: "HighLevelGraph \<Rightarrow> string list" where
  "pio_layer_names dsk = map fst (filter (\<lambda>(n, v). is_pio v) (layers dsk))"

definition is_getitem :: "layer \<Rightarrow> bool" where
  "is_getitem l = (case l of BlockwiseLayer b \<Rightarrow> fst (bw_task b) = OperatorGetitem | _ \<Rightarrow> False)"

fun hashable :: "pyval \<Rightarrow> bool" where
  "hashable VNone = True"
| "hashable (VInt i) = True"
| "hashable (VStr s) = True"
| "hashable (VList xs) = False"
| "hashable (VAwkward rows) = False"

definition requested_columns :: "layer \<Rightarrow> error + pyval set" where
  "requested_columns l =
     (case l of
        BlockwiseLayer b \<Rightarrow>
          (case py_index (indices b) 1 of
             Inl e \<Rightarrow> Inl e
           | Inr (fn_arg, ind) \<Rightarrow>
               (case fn_arg of
                  VList xs \<Rightarrow> if list_all hashable xs then Inr (set xs) else Inl TypeError
                | _ \<Rightarrow> if hashable fn_arg then Inr {fn_arg} else Inl TypeError))
      | _ \<Rightarrow> Inl AttributeError)"

text \<open>
  \<open>dsk.dependents[name]\<close>: dask reverses the dependencies, so the entry exists for every
  name that is a key or a value of \<open>dependencies\<close>. \<open>getitem_dependents\<close> is the list
  comprehension and \<open>union_requested\<close> the loop that builds \<open>seed_columns\<close>.
\<close>

definition dependents :: "HighLevelGraph \<Rightarrow> string \<Rightarrow> error + string list" where
  "dependents dsk n =
     (if n \<in> fst ` set (dependencies dsk) \<or> list_ex (\<lambda>(k, vals). n \<in> vals) (dependencies dsk)
      then Inr (map fst (filter (\<lambda>(k, vals). n \<in> vals) (dependencies dsk)))
      else Inl KeyError)"

fun getitem_dependents :: "HighLevelGraph \<Rightarrow> string list \<Rightarrow> error + string list" where
  "getitem_dependents dsk [] = Inr []"
| "getitem_dependents dsk (k # ks) =
     (case dict_get (layers dsk) k of
        Inl e \<Rightarrow> Inl e
      | Inr l \<Rightarrow>
          (case getitem_dependents dsk ks of
             Inl e \<Rightarrow> Inl e
           | Inr r \<Rightarrow> Inr (if is_getitem l then k # r else r)))"

fun union_requested :: "HighLevelGraph \<Rightarrow> string list \<Rightarrow> pyval set \<Rightarrow> error + pyval set" where
  "union_requested dsk [] seed = Inr seed"
| "union_requested dsk (gid # gids) seed =
     (case dict_get (layers dsk) gid of
        Inl e \<Rightarrow> Inl e
      | Inr l \<Rightarrow>
          (case requested_columns l of
             Inl e \<Rightarrow> Inl e
           | Inr cols \<Rightarrow> union_requested dsk gids (seed \<union> cols)))"

definition seed_columns :: "HighLevelGraph \<Rightarrow> string \<Rightarrow> error + pyval set" where
  "seed_columns dsk pio_layer_name =
     (case dependents dsk pio_layer_name of
        Inl e \<Rightarrow> Inl e
      | Inr these_deps \<Rightarrow>
          (case getitem_dependents dsk these_deps of
             Inl e \<Rightarrow> Inl e
           | Inr gids \<Rightarrow> union_requested dsk gids {}))"

text \<open>
  Modelled from the spec: \<open>AwkwardIOLayer.project_columns\<close>, the rebuild of a source layer
  narrowed to the given columns (the layer itself when its reader cannot project). Any other
  layer has no such method.
\<close>

definition project_columns :: "AwkwardIOLayer \<Rightarrow> pyval set \<Rightarrow> AwkwardIOLayer" where
  "project_columns l cols =
     (if has_project_columns (io_func l)
      then l\<lparr>io_columns := Some cols, io_func := (io_func l)\<lparr>fn_columns := Some cols\<rparr>\<rparr>
      else l)"

definition layer_project_columns :: "layer \<Rightarrow> pyval set \<Rightarrow> error + layer" where
  "layer_project_columns l cols =
     (case l of IOLayer io \<Rightarrow> Inr (IOLayer (project_columns io cols)) | _ \<Rightarrow> Inl AttributeError)"

text \<open>
  \<open>optimize_iolayer_columns\<close>, the branch taken with \<open>NEW_METHOD = 1\<close> (the other branch is
  never run): \<open>project_layers\<close> is the loop over \<open>pio_layer_names\<close>, which reads the seed from
  the graph passed in and replaces layers in the copy.
\<close>

fun project_layers ::
  "HighLevelGraph \<Rightarrow> string list \<Rightarrow> (string \<times> layer) list \<Rightarrow> error + (string \<times> layer) list" where
  "project_layers dsk [] ls = Inr ls"
| "project_layers dsk (pio_layer_name # rest) ls =
     (case seed_columns dsk pio_layer_name of
        Inl e \<Rightarrow> Inl e
      | Inr seed \<Rightarrow>
          if seed \<noteq> {}
          then (case dict_get ls pio_layer_name of
                  Inl e \<Rightarrow> Inl e
                | Inr l \<Rightarrow>
                    (case layer_project_columns l seed of
                       Inl e \<Rightarrow> Inl e
                     | Inr new_layer \<Rightarrow> project_layers dsk rest (dict_set pio_layer_name new_layer ls)))
          else project_layers dsk rest ls)"

definition optimize_iolayer_columns :: "HighLevelGraph \<Rightarrow> error + HighLevelGraph" where
  "optimize_iolayer_columns dsk =
     (let names = pio_layer_names dsk
      in if names = [] then Inr dsk
         else (case project_layers dsk names (layers dsk) of
                 Inl e \<Rightarrow> Inl e
               | Inr ls \<Rightarrow> Inr \<lparr>layers = ls, dependencies = dependencies dsk\<rparr>))"

text \<open>
  A source layer over the fields a, b and c that can be projected, and a graph in which one
  field selection with the list \<open>["a", "c"]\<close> depends on it.
\<close>

definition example_source_layer :: AwkwardIOLayer where
  "example_source_layer =
     \<lparr>io_name = ''read'', io_columns = None,
      io_func = \<lparr>fn_label = ''reader'', has_project_columns = True, fn_columns = None\<rparr>\<rparr>"

definition example_graph :: HighLevelGraph where
  "example_graph =
     \<lparr>layers = [(''read'', IOLayer example_source_layer),
                (''getitem'', BlockwiseLayer
                   \<lparr>bw_output = ''getitem'', bw_task = (OperatorGetitem, [BToken 0, BToken 1]),
                    indices = [(VStr ''read'', Some ''i''), (VList [VStr ''a'', VStr ''c''], None)],
                    numblocks = [(''read'', 2)]\<rparr>)],
      dependencies = [(''read'', {}), (''getitem'', {''read''})]\<rparr>"


text \<open>Two Arrays of two partitions with unknown divisions: a source and a boolean mask.\<close>

definition example_unknown_array :: Array where
  "example_unknown_array =
     \<lparr>dask = \<lparr>layers = [(''raw'', Materialized [(KPart ''raw'' 0, Data (VAwkward [])),
                                              (KPart ''raw'' 1, Data (VAwkward []))])],
              dependencies = [(''raw'', {})]\<rparr>,
      name = ''raw'', meta = Some (Form ''typetracer''),
      divisions = [None, None, None]\<rparr>"


text \<open>
  The set the optimizer is specified to compute for a source layer \<open>n\<close>: the union of the field
  sets requested by the direct dependents of \<open>n\<close> that are field-selection layers.
\<close>

definition requested_by_getitem_dependents :: "HighLevelGraph \<Rightarrow> string \<Rightarrow> pyval set" where
  "requested_by_getitem_dependents dsk n =
     \<Union> {cols. \<exists>k vals l. (k, vals) \<in> set (dependencies dsk) \<and> n \<in> vals \<and>
                        (k, l) \<in> set (layers dsk) \<and> is_getitem l \<and>
                        requested_columns l = Inr cols}"

text \<open>
  What the optimizer is specified to do with one layer: a column-projectable source layer with
  a non-empty requested set is rebuilt narrowed to that set, any other layer is kept.
\<close>

definition narrowed_layer :: "HighLevelGraph \<Rightarrow> string \<Rightarrow> layer \<Rightarrow> layer" where
  "narrowed_layer dsk n l =
     (case l of
        IOLayer io \<Rightarrow>
          if has_project_columns (io_func io) \<and> requested_by_getitem_dependents dsk n \<noteq> {}
          then IOLayer (project_columns io (requested_by_getitem_dependents dsk n))
          else l
      | _ \<Rightarrow> l)"

text \<open>
  A well-formed graph: \<open>layers\<close> and \<open>dependencies\<close> are dictionaries (no key twice) over the
  same layer names, and of every field-selection layer the key argument can be read as a set
  of columns.
\<close>

definition well_formed_graph :: "HighLevelGraph \<Rightarrow> bool" where
  "well_formed_graph dsk =
     (distinct (map fst (layers dsk)) \<and>
      distinct (map fst (dependencies dsk)) \<and>
      set (map fst (dependencies dsk)) = set (map fst (layers dsk)) \<and>
      list_all (\<lambda>(n, l). is_getitem l \<longrightarrow> \<not> isl (requested_columns l)) (layers dsk))"


section \<open>Properties of the index resolution\<close>










section \<open>Properties of from_awkward\<close>








section \<open>Properties of the reduction with aggregation\<close>







section \<open>Properties of new_array_object\<close>

lemma new_array_object_with_meta:
  "new_array_object E g nm (Some m) None (Some d) =
     (Inr \<lparr>dask = g, name = nm, meta = Some m, divisions = d\<rparr>, [])"
  by (simp add: new_array_object_def)

lemma new_array_object_result:
  assumes "new_array_object E g nm m None (Some d) = (Inr r, rq)"
  shows "divisions r = d \<and> name r = nm \<and> dask r = g"
proof (cases m)
  case (Some x)
  with assms show ?thesis
    by (auto simp: new_array_object_def)
next
  case None
  with assms show ?thesis
    by (auto simp: new_array_object_def Let_def split: prod.splits sum.splits if_splits)
qed

section \<open>Selection by a lazy boolean mask\<close>

lemma getitem_boolean_lazy_array_divisions:
  assumes "getitem_boolean_lazy_array E self key = (Inr r, rq)"
  shows "divisions r = divisions self"
proof -
  from assms obtain g nm m where
    "new_array_object E g nm m None (Some (divisions self)) = (Inr r, rq)"
    by (auto simp: getitem_boolean_lazy_array_def Let_def split: if_splits sum.splits)
  then show ?thesis
    by (simp add: new_array_object_result)
qed





section \<open>Divisions of map_partitions\<close>

lemma partitionwise_pairs_no_collection:
  "\<forall>a \<in> set args. (case a of ArgCollection c \<Rightarrow> False | _ \<Rightarrow> True) \<Longrightarrow>
     \<exists>r. partitionwise_pairs args pairs nb = Inr r"
proof (induction args arbitrary: pairs nb)
  case Nil
  then show ?case by simp
next
  case (Cons a args)
  then show ?case
    by (cases a) auto
qed

lemma map_partitions_first_array:
  assumes "\<forall>a \<in> set rest. (case a of ArgCollection c \<Rightarrow> False | _ \<Rightarrow> True)"
  shows "\<exists>r. map_partitions E func (ArgArray a0 # rest) name_opt (Some m) kwargs = (Inr r, []) \<and>
             divisions r = divisions a0"
proof -
  obtain pairs nb where
    "partitionwise_pairs (ArgArray a0 # rest) [] [] = Inr (pairs, nb)"
    using partitionwise_pairs_no_collection [of "ArgArray a0 # rest" "[]" "[]"] assms by auto
  then show ?thesis
    by (simp add: map_partitions_def partitionwise_layer_def py_index_def Let_def
        new_array_object_with_meta del: partitionwise_pairs.simps)
qed

text \<open>
  C4. The claim is that the result carries the divisions of the first Array among the
  positional arguments. With the arguments \<open>(2, a)\<close>, where \<open>a\<close> is an Array with divisions
  \<open>(0, 3, 6, 9, 12)\<close>, the layer is built (\<open>partitionwise_layer\<close> accepts the plain value), and
  then \<open>args[0].divisions\<close> is read from the integer \<open>2\<close>: the call raises \<open>AttributeError\<close>
  instead of returning an Array with the divisions of \<open>a\<close>.
\<close>

theorem map_partitions_plain_first_argument_raises:
  "(\<exists>lay. partitionwise_layer (Fn ''add'') ''add-token'' [ArgValue (VInt 2), ArgArray example_array] []
            = Inr lay) \<and>
   map_partitions example_engine (Fn ''add'') [ArgValue (VInt 2), ArgArray example_array] None
     (Some (Form ''typetracer'')) [] = (Inl AttributeError, [])"
  by (simp add: map_partitions_def partitionwise_layer_def py_index_def Let_def)

section \<open>Selecting partitions\<close>

lemma partitions_unfold:
  assumes "partitions E self sel = (Inr r, rq)"
  shows "\<exists>raw new_keys d nm.
           nm = ''partitions-'' @ tokenize E [TokCollection (name self), TokSel sel] \<and>
           normalize_index sel (npartitions self) = Inr raw \<and>
           keys_array_getitem (dask_keys self) raw = Inr new_keys \<and>
           partitions_new_divisions self raw new_keys = Inr d \<and>
           new_array_object E
             (from_collections nm (Materialized (partitions_layer nm new_keys))
                [(dask self, array_dask_layers self)])
             nm None None (Some d) = (Inr r, rq)"
  using assms unfolding partitions_def Let_def by (auto split: sum.splits)

lemma normalize_index_shape:
  assumes "normalize_index sel n = Inr raw"
  shows "(\<exists>i. raw = SelInt i) \<longleftrightarrow> (\<exists>i. sel = SelInt i)"
  using assms by (cases sel) (auto simp: normalize_index_def split: if_splits sum.splits)

lemma normalize_index_SelInt:
  assumes "normalize_index (SelInt i) n = Inr raw"
  shows "raw = SelInt (if i < 0 then i + n else i) \<and> - n \<le> i \<and> i < n"
  using assms by (auto simp: normalize_index_def split: if_splits)

lemma partitions_SelInt_known:
  assumes "partitions E self (SelInt i) = (Inr r, rq)" and "known_divisions self"
  shows "\<exists>j h l. j = (if i < 0 then i + npartitions self else i) \<and>
           0 \<le> j \<and> j < npartitions self \<and>
           divisions self ! nat (j + 1) = Some h \<and> divisions self ! nat j = Some l \<and>
           divisions r = [Some 0, Some (h - l)]"
proof -
  define n where "n = npartitions self"
  define j where "j = (if i < 0 then i + n else i)"
  from partitions_unfold [OF assms(1)] obtain raw new_keys d g nm where
    raw: "normalize_index (SelInt i) n = Inr raw"
    and d: "partitions_new_divisions self raw new_keys = Inr d"
    and new: "new_array_object E g nm None None (Some d) = (Inr r, rq)"
    unfolding n_def by blast
  from normalize_index_SelInt [OF raw] have rj: "raw = SelInt j" and j: "0 \<le> j" "j < n"
    by (auto simp: j_def)
  have len: "int (length (divisions self)) = n + 1"
    by (simp add: n_def npartitions_def)
  have hi: "py_index (divisions self) (j + 1) = Inr (divisions self ! nat (j + 1))"
    using j len by (simp add: py_index_def)
  have lo: "py_index (divisions self) j = Inr (divisions self ! nat j)"
    using j len by (simp add: py_index_def)
  from d have "(case (divisions self ! nat (j + 1), divisions self ! nat j) of
           (Some h, Some l) \<Rightarrow> Inr [Some 0, Some (h - l)]
         | _ \<Rightarrow> Inl TypeError) = Inr d"
    unfolding partitions_new_divisions_def rj by (simp add: assms(2) hi lo)
  then obtain h l where hl: "divisions self ! nat (j + 1) = Some h" "divisions self ! nat j = Some l"
    "d = [Some 0, Some (h - l)]"
    by (auto split: option.splits)
  have "divisions r = d"
    using new_array_object_result [OF new] by simp
  with hl j show ?thesis
    unfolding j_def n_def by blast
qed

lemma partitions_unknown:
  assumes "partitions E self sel = (Inr r, rq)"
    and "\<not> (\<exists>i. sel = SelInt i \<and> known_divisions self)"
  shows "\<exists>k. divisions r = replicate (Suc k) None"
proof -
  from partitions_unfold [OF assms(1)] obtain raw new_keys d g nm where
    raw: "normalize_index sel (npartitions self) = Inr raw"
    and d: "partitions_new_divisions self raw new_keys = Inr d"
    and new: "new_array_object E g nm None None (Some d) = (Inr r, rq)"
    by blast
  have "d = replicate (Suc (length new_keys)) None"
  proof (cases "\<exists>i. raw = SelInt i")
    case True
    then have "\<not> known_divisions self"
      using normalize_index_shape [OF raw] assms(2) by blast
    with True d show ?thesis
      by (auto simp: partitions_new_divisions_def)
  next
    case False
    with d show ?thesis
      by (cases raw) (auto simp: partitions_new_divisions_def)
  qed
  moreover have "divisions r = d"
    using new_array_object_result [OF new] by simp
  ultimately show ?thesis
    by blast
qed

text \<open>
  C9. Whenever \<open>a.partitions[selector]\<close> returns, its divisions are entirely unknown (a
  non-empty sequence of \<open>None\<close>), unless the selector is a single integer \<open>i\<close> and the divisions
  of \<open>a\<close> are known: then, with \<open>j\<close> the partition that \<open>i\<close> denotes (\<open>i\<close> itself, or
  \<open>i + npartitions\<close> for a negative \<open>i\<close>), the divisions of the result are
  \<open>(0, a.divisions[j+1] - a.divisions[j])\<close>.
\<close>

theorem partitions_divisions:
  assumes "partitions E self sel = (Inr r, rq)"
  shows "if (\<exists>i. sel = SelInt i) \<and> known_divisions self
         then \<exists>i j h l. sel = SelInt i \<and> j = (if i < 0 then i + npartitions self else i) \<and>
                0 \<le> j \<and> j < npartitions self \<and>
                divisions self ! nat (j + 1) = Some h \<and> divisions self ! nat j = Some l \<and>
                divisions r = [Some 0, Some (h - l)]
         else set (divisions r) = {None}"
proof (cases "(\<exists>i. sel = SelInt i) \<and> known_divisions self")
  case True
  then obtain i where i: "sel = SelInt i" and k: "known_divisions self"
    by blast
  from partitions_SelInt_known [OF assms [unfolded i] k] i True show ?thesis
    by auto
next
  case False
  then have "\<not> (\<exists>i. sel = SelInt i \<and> known_divisions self)"
    by blast
  from partitions_unknown [OF assms this] obtain k where "divisions r = replicate (Suc k) None"
    by blast
  then have "set (divisions r) = {None}"
    by (simp only: set_replicate_Suc)
  then show ?thesis
    by (simp only: if_not_P [OF False])
qed

theorem partitions_divisions_witness:
  "(\<exists>r rq. partitions example_engine example_array (SelInt (- 1)) = (Inr r, rq) \<and>
           divisions r = [Some 0, Some 3]) \<and>
   (\<exists>r rq. partitions example_engine example_array (SelSlice (Some 1) (Some 2) None) = (Inr r, rq) \<and>
           set (divisions r) = {None}) \<and>
   (\<exists>r rq. partitions example_engine example_unknown_array (SelInt 0) = (Inr r, rq) \<and>
           set (divisions r) = {None})"
proof -
  obtain r1 rq1 where a: "partitions example_engine example_array (SelInt (- 1)) = (Inr r1, rq1)"
    by (simp add: partitions_def normalize_index_def keys_array_getitem_def py_getslice_def
        dask_keys_def npartitions_def known_divisions_def py_index_def partitions_new_divisions_def example_array_def
        example_engine_def new_array_object_def get_typetracer_def first_partition_def
        partitions_layer_def from_collections_def Let_def upt_rec)
  obtain r2 rq2 where b: "partitions example_engine example_array (SelSlice (Some 1) (Some 2) None)
      = (Inr r2, rq2)"
    by (simp add: partitions_def normalize_index_def keys_array_getitem_def slice_indices_def
        py_range_def dask_keys_def npartitions_def known_divisions_def py_index_def partitions_new_divisions_def example_array_def
        example_engine_def new_array_object_def get_typetracer_def first_partition_def
        partitions_layer_def from_collections_def Let_def upt_rec)
  obtain r3 rq3 where c: "partitions example_engine example_unknown_array (SelInt 0) = (Inr r3, rq3)"
    by (simp add: partitions_def normalize_index_def keys_array_getitem_def py_getslice_def
        dask_keys_def npartitions_def known_divisions_def py_index_def partitions_new_divisions_def example_unknown_array_def
        example_engine_def new_array_object_def get_typetracer_def first_partition_def
        partitions_layer_def from_collections_def Let_def upt_rec)
  have k: "known_divisions example_array" "\<not> known_divisions example_unknown_array"
    by (simp_all add: known_divisions_def example_array_def example_unknown_array_def)
  have d: "divisions example_array ! 4 = Some 12" "divisions example_array ! 3 = Some 9"
    "npartitions example_array = 4"
    by (simp_all add: example_array_def npartitions_def)
  have "divisions r1 = [Some 0, Some 3]"
    using partitions_divisions [OF a] k d by auto
  moreover have "set (divisions r2) = {None}"
    using partitions_divisions [OF b] by simp
  moreover have "set (divisions r3) = {None}"
    using partitions_divisions [OF c] k by simp
  ultimately show ?thesis
    using a b c by blast
qed

section \<open>What selecting partitions computes\<close>










section \<open>The column-projection optimizer\<close>

lemma dict_get_distinct:
  "distinct (map fst d) \<Longrightarrow> (k, v) \<in> set d \<Longrightarrow> dict_get d k = Inr v"
  by (simp add: dict_get_def)

lemma dict_get_Inr:
  "dict_get d k = Inr v \<Longrightarrow> (k, v) \<in> set d"
  by (auto simp: dict_get_def dest: map_of_SomeD split: option.splits)

lemma dict_set_as_map:
  "distinct (map fst d) \<Longrightarrow> k \<in> fst ` set d \<Longrightarrow>
     dict_set k v d = map (\<lambda>(k', v'). (k', if k' = k then v else v')) d"
proof (induction d)
  case Nil
  then show ?case by simp
next
  case (Cons p d)
  obtain a b where p: "p = (a, b)"
    by (cases p)
  show ?case
  proof (cases "a = k")
    case True
    with Cons.prems p have "k \<notin> fst ` set d"
      by auto
    then have "map (\<lambda>(k', v'). (k', if k' = k then v else v')) d = d"
      by (induction d) auto
    with True p show ?thesis
      by simp
  next
    case False
    with Cons p show ?thesis
      by auto
  qed
qed

lemma getitem_dependents_eq:
  assumes "set ks \<subseteq> fst ` set (layers dsk)" and "distinct (map fst (layers dsk))"
  shows "getitem_dependents dsk ks =
           Inr (filter (\<lambda>k. \<exists>l. (k, l) \<in> set (layers dsk) \<and> is_getitem l) ks)"
  using assms(1)
proof (induction ks)
  case Nil
  then show ?case by simp
next
  case (Cons k ks)
  then obtain l where l: "(k, l) \<in> set (layers dsk)"
    by auto
  have get: "dict_get (layers dsk) k = Inr l"
    using assms(2) l by (rule dict_get_distinct)
  have uniq: "(\<exists>l'. (k, l') \<in> set (layers dsk) \<and> is_getitem l') \<longleftrightarrow> is_getitem l"
    using assms(2) l by (auto dest: eq_key_imp_eq_value)
  from Cons have "getitem_dependents dsk ks =
      Inr (filter (\<lambda>k. \<exists>l. (k, l) \<in> set (layers dsk) \<and> is_getitem l) ks)"
    by simp
  then show ?case
    by (simp add: get uniq)
qed

lemma union_requested_eq:
  assumes "distinct (map fst (layers dsk))"
    and "\<forall>k \<in> set gids. \<exists>l cols. (k, l) \<in> set (layers dsk) \<and> requested_columns l = Inr cols"
  shows "union_requested dsk gids seed =
           Inr (seed \<union> \<Union> {cols. \<exists>k l. k \<in> set gids \<and> (k, l) \<in> set (layers dsk) \<and>
                                     requested_columns l = Inr cols})"
  using assms(2)
proof (induction gids arbitrary: seed)
  case Nil
  then show ?case by simp
next
  case (Cons k gids)
  then obtain l cols where l: "(k, l) \<in> set (layers dsk)" "requested_columns l = Inr cols"
    by auto
  have get: "dict_get (layers dsk) k = Inr l"
    using assms(1) l(1) by (rule dict_get_distinct)
  have only: "c = cols" if "(k, l') \<in> set (layers dsk)" "requested_columns l' = Inr c" for l' c
  proof -
    have "l' = l"
      using eq_key_imp_eq_value [OF assms(1) that(1) l(1)] .
    with that(2) l(2) show ?thesis
      by simp
  qed
  have ih: "union_requested dsk gids (seed \<union> cols) =
      Inr ((seed \<union> cols) \<union> \<Union> {c. \<exists>k l. k \<in> set gids \<and> (k, l) \<in> set (layers dsk) \<and>
                                     requested_columns l = Inr c})"
    using Cons by simp
  let ?A = "{c. \<exists>k' l. k' \<in> set (k # gids) \<and> (k', l) \<in> set (layers dsk) \<and> requested_columns l = Inr c}"
  let ?B = "{c. \<exists>k l. k \<in> set gids \<and> (k, l) \<in> set (layers dsk) \<and> requested_columns l = Inr c}"
  have "?A = insert cols ?B"
  proof (rule set_eqI)
    fix c
    show "c \<in> ?A \<longleftrightarrow> c \<in> insert cols ?B"
    proof
      assume "c \<in> ?A"
      then obtain k' l' where kl: "k' = k \<or> k' \<in> set gids" "(k', l') \<in> set (layers dsk)"
        "requested_columns l' = Inr c"
        by auto
      show "c \<in> insert cols ?B"
      proof (cases "k' = k")
        case True
        with kl only show ?thesis
          by blast
      next
        case False
        with kl show ?thesis
          by blast
      qed
    next
      assume "c \<in> insert cols ?B"
      then show "c \<in> ?A"
        using l by auto
    qed
  qed
  then have "seed \<union> \<Union> ?A = (seed \<union> cols) \<union> \<Union> ?B"
    by (simp only: Union_insert Un_assoc)
  then show ?case
    by (simp only: union_requested.simps get l(2) sum.case ih)
qed

lemma well_formed_requested:
  assumes "well_formed_graph dsk" "(k, l) \<in> set (layers dsk)" "is_getitem l"
  shows "\<exists>cols. requested_columns l = Inr cols"
proof -
  from assms have "\<not> isl (requested_columns l)"
    by (auto simp: well_formed_graph_def list_all_iff)
  then show ?thesis
    by (cases "requested_columns l") auto
qed

lemma seed_columns_eq:
  assumes wf: "well_formed_graph dsk" and n: "n \<in> fst ` set (layers dsk)"
  shows "seed_columns dsk n = Inr (requested_by_getitem_dependents dsk n)"
proof -
  let ?deps = "dependencies dsk"
  let ?these = "map fst (filter (\<lambda>(k, vals). n \<in> vals) ?deps)"
  let ?gids = "filter (\<lambda>k. \<exists>l. (k, l) \<in> set (layers dsk) \<and> is_getitem l) ?these"
  have dl: "distinct (map fst (layers dsk))"
    and keys: "fst ` set ?deps = fst ` set (layers dsk)"
    using wf by (simp_all add: well_formed_graph_def)
  have "n \<in> fst ` set ?deps"
    using n keys by simp
  then have dep: "dependents dsk n = Inr ?these"
    by (simp add: dependents_def)
  have "set ?these \<subseteq> fst ` set ?deps"
    by auto
  then have sub: "set ?these \<subseteq> fst ` set (layers dsk)"
    using keys by simp
  have gd: "getitem_dependents dsk ?these = Inr ?gids"
    using sub dl by (rule getitem_dependents_eq)
  have req: "\<forall>k \<in> set ?gids. \<exists>l cols. (k, l) \<in> set (layers dsk) \<and> requested_columns l = Inr cols"
  proof
    fix k
    assume "k \<in> set ?gids"
    then obtain l where l: "(k, l) \<in> set (layers dsk)" "is_getitem l"
      by auto
    with well_formed_requested [OF wf l] show
      "\<exists>l cols. (k, l) \<in> set (layers dsk) \<and> requested_columns l = Inr cols"
      by blast
  qed
  have ur: "union_requested dsk ?gids {} =
      Inr ({} \<union> \<Union> {cols. \<exists>k l. k \<in> set ?gids \<and> (k, l) \<in> set (layers dsk) \<and>
                                     requested_columns l = Inr cols})"
    using dl req by (rule union_requested_eq)
  have these: "k \<in> set ?these \<longleftrightarrow> (\<exists>vals. (k, vals) \<in> set ?deps \<and> n \<in> vals)" for k
    by force
  have "{cols. \<exists>k l. k \<in> set ?gids \<and> (k, l) \<in> set (layers dsk) \<and> requested_columns l = Inr cols}
        = {cols. \<exists>k vals l. (k, vals) \<in> set ?deps \<and> n \<in> vals \<and>
                        (k, l) \<in> set (layers dsk) \<and> is_getitem l \<and>
                        requested_columns l = Inr cols}"
    (is "?A = ?B")
  proof (rule set_eqI)
    fix c
    show "c \<in> ?A \<longleftrightarrow> c \<in> ?B"
    proof
      assume "c \<in> ?A"
      then obtain k l where k0: "k \<in> set ?gids" "(k, l) \<in> set (layers dsk)"
        "requested_columns l = Inr c"
        by blast
      from k0(1) have "k \<in> set ?these \<and> (\<exists>l'. (k, l') \<in> set (layers dsk) \<and> is_getitem l')"
        by (simp only: set_filter mem_Collect_eq)
      with k0 obtain l' where k: "k \<in> set ?these" "(k, l') \<in> set (layers dsk)" "is_getitem l'"
        "(k, l) \<in> set (layers dsk)" "requested_columns l = Inr c"
        by blast
      have "l' = l"
        using eq_key_imp_eq_value [OF dl k(2) k(4)] .
      with k these [of k] show "c \<in> ?B"
        by blast
    next
      assume "c \<in> ?B"
      then obtain k vals l where k: "(k, vals) \<in> set ?deps" "n \<in> vals"
        "(k, l) \<in> set (layers dsk)" "is_getitem l" "requested_columns l = Inr c"
        by blast
      then have "k \<in> set ?these"
        using these [of k] by blast
      with k have "k \<in> set ?gids"
        by (simp only: set_filter mem_Collect_eq) blast
      with k show "c \<in> ?A"
        by blast
    qed
  qed
  then have "union_requested dsk ?gids {} = Inr (requested_by_getitem_dependents dsk n)"
    unfolding ur requested_by_getitem_dependents_def by simp
  then show ?thesis
    by (simp only: seed_columns_def dep gd sum.case)
qed

lemma narrowed_layer_io:
  "has_project_columns (io_func io) \<Longrightarrow>
     narrowed_layer dsk n (IOLayer io) =
       (if requested_by_getitem_dependents dsk n \<noteq> {}
        then IOLayer (project_columns io (requested_by_getitem_dependents dsk n))
        else IOLayer io)"
  by (simp add: narrowed_layer_def)

lemma narrowed_layer_not_pio:
  "\<not> is_pio l \<Longrightarrow> narrowed_layer dsk n l = l"
  by (cases l) (simp_all add: narrowed_layer_def is_pio_def)

lemma narrowed_layer_empty:
  "requested_by_getitem_dependents dsk n = {} \<Longrightarrow> narrowed_layer dsk n l = l"
  by (cases l) (simp_all add: narrowed_layer_def)

lemma project_layers_eq:
  assumes "distinct (map fst ls)" and "distinct ns"
    and "\<forall>n \<in> set ns. \<exists>io. (n, IOLayer io) \<in> set ls \<and> has_project_columns (io_func io)"
    and "\<forall>n \<in> set ns. seed_columns dsk n = Inr (requested_by_getitem_dependents dsk n)"
  shows "project_layers dsk ns ls =
           Inr (map (\<lambda>(k, l). (k, if k \<in> set ns then narrowed_layer dsk k l else l)) ls)"
  using assms
proof (induction ns arbitrary: ls)
  case Nil
  have "map (\<lambda>(k, l). (k, l)) ls = ls"
    by (induction ls) auto
  then show ?case
    by simp
next
  case (Cons n rest)
  let ?S = "requested_by_getitem_dependents dsk n"
  from Cons.prems obtain io where io: "(n, IOLayer io) \<in> set ls" "has_project_columns (io_func io)"
    by auto
  have seed: "seed_columns dsk n = Inr ?S"
    using Cons.prems by simp
  have nrest: "n \<notin> set rest" "distinct rest"
    using Cons.prems(2) by simp_all
  have only: "l = IOLayer io" if "(n, l) \<in> set ls" for l
    using eq_key_imp_eq_value [OF Cons.prems(1) that io(1)] .
  show ?case
  proof (cases "?S = {}")
    case True
    have ih: "project_layers dsk rest ls =
        Inr (map (\<lambda>(k, l). (k, if k \<in> set rest then narrowed_layer dsk k l else l)) ls)"
      using Cons.prems nrest by (intro Cons.IH) auto
    have "map (\<lambda>(k, l). (k, if k \<in> set rest then narrowed_layer dsk k l else l)) ls =
          map (\<lambda>(k, l). (k, if k \<in> set (n # rest) then narrowed_layer dsk k l else l)) ls"
      using True by (intro map_cong refl) (auto simp: narrowed_layer_empty)
    with ih seed True show ?thesis
      by simp
  next
    case False
    define new where "new = IOLayer (project_columns io ?S)"
    define ls1 where "ls1 = map (\<lambda>(k', v'). (k', if k' = n then new else v')) ls"
    have get: "dict_get ls n = Inr (IOLayer io)"
      using Cons.prems(1) io(1) by (rule dict_get_distinct)
    have proj: "layer_project_columns (IOLayer io) ?S = Inr new"
      by (simp add: layer_project_columns_def new_def)
    have "n \<in> fst ` set ls"
      using io(1) by force
    then have upd: "dict_set n new ls = ls1"
      unfolding ls1_def using Cons.prems(1) by (intro dict_set_as_map)
    have step: "project_layers dsk (n # rest) ls = project_layers dsk rest ls1"
      using seed False get proj upd by simp
    have d1: "distinct (map fst ls1)"
    proof -
      have "map fst ls1 = map fst ls"
        unfolding ls1_def by (induction ls) auto
      with Cons.prems(1) show ?thesis
        by simp
    qed
    have io1: "\<forall>m \<in> set rest. \<exists>io. (m, IOLayer io) \<in> set ls1 \<and> has_project_columns (io_func io)"
    proof
      fix m
      assume m: "m \<in> set rest"
      with Cons.prems(3) obtain iom where iom: "(m, IOLayer iom) \<in> set ls"
        "has_project_columns (io_func iom)"
        by auto
      from m nrest have "m \<noteq> n"
        by auto
      with iom(1) have "(m, IOLayer iom) \<in> set ls1"
        unfolding ls1_def by force
      with iom(2) show "\<exists>io. (m, IOLayer io) \<in> set ls1 \<and> has_project_columns (io_func io)"
        by blast
    qed
    have ih: "project_layers dsk rest ls1 =
        Inr (map (\<lambda>(k, l). (k, if k \<in> set rest then narrowed_layer dsk k l else l)) ls1)"
      using d1 nrest(2) io1 Cons.prems(4) by (intro Cons.IH) auto
    have "map (\<lambda>(k, l). (k, if k \<in> set rest then narrowed_layer dsk k l else l)) ls1 =
          map (\<lambda>(k, l). (k, if k \<in> set (n # rest) then narrowed_layer dsk k l else l)) ls"
      unfolding ls1_def map_map
    proof (intro map_cong refl)
      fix x
      assume x: "x \<in> set ls"
      obtain k l where kl: "x = (k, l)"
        by (cases x)
      show "((\<lambda>(k, l). (k, if k \<in> set rest then narrowed_layer dsk k l else l)) \<circ>
             (\<lambda>(k', v'). (k', if k' = n then new else v'))) x =
            (case x of (k, l) \<Rightarrow> (k, if k \<in> set (n # rest) then narrowed_layer dsk k l else l))"
      proof (cases "k = n")
        case True
        with x kl have "l = IOLayer io"
          using only by simp
        then have "narrowed_layer dsk n l = new"
          using io(2) False by (simp add: narrowed_layer_io new_def)
        with True kl nrest(1) show ?thesis
          by simp
      next
        case False
        with kl show ?thesis
          by simp
      qed
    qed
    with step ih show ?thesis
      by simp
  qed
qed

lemma map_case_prod_id: "map (\<lambda>(k, l). (k, l)) xs = xs"
  by (induction xs) auto

lemma map_fst_map_snd: "map fst (map (\<lambda>(k, l). (k, f k l)) xs) = map fst xs"
  by (induction xs) auto

lemma pio_layer_names_iff:
  "n \<in> set (pio_layer_names dsk) \<longleftrightarrow> (\<exists>l. (n, l) \<in> set (layers dsk) \<and> is_pio l)"
  by (force simp: pio_layer_names_def)

lemma is_pio_iff:
  "is_pio l \<longleftrightarrow> (\<exists>io. l = IOLayer io \<and> has_project_columns (io_func io))"
  by (cases l) (simp_all add: is_pio_def)

lemma optimize_iolayer_columns_closed_form:
  assumes wf: "well_formed_graph dsk"
  shows "optimize_iolayer_columns dsk =
           Inr \<lparr>layers = map (\<lambda>(n, l). (n, narrowed_layer dsk n l)) (layers dsk),
                dependencies = dependencies dsk\<rparr>"
proof -
  let ?ns = "pio_layer_names dsk"
  have dl: "distinct (map fst (layers dsk))"
    using wf by (simp add: well_formed_graph_def)
  have dn: "distinct ?ns"
    unfolding pio_layer_names_def using dl by (rule distinct_map_filter)
  have io: "\<forall>n \<in> set ?ns. \<exists>io. (n, IOLayer io) \<in> set (layers dsk) \<and> has_project_columns (io_func io)"
  proof
    fix n
    assume "n \<in> set ?ns"
    then obtain l where l: "(n, l) \<in> set (layers dsk)" "is_pio l"
      unfolding pio_layer_names_iff by blast
    from l(2) obtain io where "l = IOLayer io" "has_project_columns (io_func io)"
      unfolding is_pio_iff by blast
    with l(1) show "\<exists>io. (n, IOLayer io) \<in> set (layers dsk) \<and> has_project_columns (io_func io)"
      by blast
  qed
  have seeds: "\<forall>n \<in> set ?ns. seed_columns dsk n = Inr (requested_by_getitem_dependents dsk n)"
  proof
    fix n
    assume "n \<in> set ?ns"
    then have "n \<in> fst ` set (layers dsk)"
      unfolding pio_layer_names_iff by force
    with wf show "seed_columns dsk n = Inr (requested_by_getitem_dependents dsk n)"
      by (rule seed_columns_eq)
  qed
  have pl: "project_layers dsk ?ns (layers dsk) =
      Inr (map (\<lambda>(k, l). (k, if k \<in> set ?ns then narrowed_layer dsk k l else l)) (layers dsk))"
    using dl dn io seeds by (rule project_layers_eq)
  have same: "map (\<lambda>(k, l). (k, if k \<in> set ?ns then narrowed_layer dsk k l else l)) (layers dsk) =
              map (\<lambda>(n, l). (n, narrowed_layer dsk n l)) (layers dsk)"
  proof (intro map_cong refl)
    fix x
    assume x: "x \<in> set (layers dsk)"
    obtain k l where kl: "x = (k, l)"
      by (cases x)
    show "(case x of (k, l) \<Rightarrow> (k, if k \<in> set ?ns then narrowed_layer dsk k l else l)) =
          (case x of (n, l) \<Rightarrow> (n, narrowed_layer dsk n l))"
    proof (cases "k \<in> set ?ns")
      case True
      with kl show ?thesis
        by simp
    next
      case False
      with x kl have "\<not> is_pio l"
        unfolding pio_layer_names_iff by blast
      then have "narrowed_layer dsk k l = l"
        by (rule narrowed_layer_not_pio)
      with kl False show ?thesis
        by simp
    qed
  qed
  show ?thesis
  proof (cases "?ns = []")
    case True
    then have "map (\<lambda>(k, l). (k, if k \<in> set ?ns then narrowed_layer dsk k l else l)) (layers dsk) =
               layers dsk"
      by (simp add: map_case_prod_id)
    then have "map (\<lambda>(n, l). (n, narrowed_layer dsk n l)) (layers dsk) = layers dsk"
      using same by simp
    then have "\<lparr>layers = map (\<lambda>(n, l). (n, narrowed_layer dsk n l)) (layers dsk),
                  dependencies = dependencies dsk\<rparr> = dsk"
      by simp
    with True show ?thesis
      by (simp add: optimize_iolayer_columns_def)
  next
    case False
    with pl same show ?thesis
      by (simp add: optimize_iolayer_columns_def)
  qed
qed

lemma project_columns_narrows:
  "has_project_columns (io_func io) \<Longrightarrow>
     io_columns (project_columns io S) = Some S \<and>
     has_project_columns (io_func (project_columns io S)) \<and>
     project_columns (project_columns io S) S = project_columns io S"
  by (simp add: project_columns_def)


lemma example_graph_well_formed: "well_formed_graph example_graph"
  by (simp add: well_formed_graph_def example_graph_def is_getitem_def requested_columns_def
      py_index_def)



section \<open>Idempotence of the optimizer\<close>

lemma narrowed_layer_getitem:
  "is_getitem (narrowed_layer dsk n l) = is_getitem l"
  "is_getitem l \<Longrightarrow> narrowed_layer dsk n l = l"
  by (cases l; simp add: narrowed_layer_def is_getitem_def)+

lemma narrowed_layers_getitem:
  "(k, l) \<in> set (map (\<lambda>(n, l). (n, narrowed_layer dsk n l)) ls) \<and> is_getitem l \<longleftrightarrow>
   (k, l) \<in> set ls \<and> is_getitem l"
proof
  assume a: "(k, l) \<in> set (map (\<lambda>(n, l). (n, narrowed_layer dsk n l)) ls) \<and> is_getitem l"
  then obtain l0 where l0: "(k, l0) \<in> set ls" "l = narrowed_layer dsk k l0"
    by auto
  with a have "is_getitem l0"
    by (simp add: narrowed_layer_getitem(1))
  then have "l = l0"
    using l0(2) by (simp add: narrowed_layer_getitem(2))
  with l0(1) a show "(k, l) \<in> set ls \<and> is_getitem l"
    by simp
next
  assume a: "(k, l) \<in> set ls \<and> is_getitem l"
  then have "narrowed_layer dsk k l = l"
    by (simp add: narrowed_layer_getitem(2))
  with a show "(k, l) \<in> set (map (\<lambda>(n, l). (n, narrowed_layer dsk n l)) ls) \<and> is_getitem l"
    by force
qed

lemma requested_after_optimize:
  "requested_by_getitem_dependents
     \<lparr>layers = map (\<lambda>(n, l). (n, narrowed_layer dsk n l)) (layers dsk),
      dependencies = dependencies dsk\<rparr> m =
   requested_by_getitem_dependents dsk m"
proof -
  have "(\<exists>k vals l. (k, vals) \<in> set (dependencies dsk) \<and> m \<in> vals \<and>
            (k, l) \<in> set (map (\<lambda>(n, l). (n, narrowed_layer dsk n l)) (layers dsk)) \<and>
            is_getitem l \<and> requested_columns l = Inr cols) \<longleftrightarrow>
        (\<exists>k vals l. (k, vals) \<in> set (dependencies dsk) \<and> m \<in> vals \<and>
            (k, l) \<in> set (layers dsk) \<and> is_getitem l \<and> requested_columns l = Inr cols)" for cols
    using narrowed_layers_getitem [of _ _ dsk "layers dsk"] by (meson)
  then show ?thesis
    by (simp add: requested_by_getitem_dependents_def)
qed

lemma well_formed_after_optimize:
  assumes "well_formed_graph dsk"
  shows "well_formed_graph
     \<lparr>layers = map (\<lambda>(n, l). (n, narrowed_layer dsk n l)) (layers dsk),
      dependencies = dependencies dsk\<rparr>"
proof -
  have "\<not> isl (requested_columns l)"
    if "(k, l) \<in> set (map (\<lambda>(n, l). (n, narrowed_layer dsk n l)) (layers dsk))" "is_getitem l"
    for k l
  proof -
    from that have "(k, l) \<in> set (layers dsk)"
      using narrowed_layers_getitem [of k l dsk "layers dsk"] by blast
    with assms that(2) show ?thesis
      by (auto simp: well_formed_graph_def list_all_iff)
  qed
  then have "list_all (\<lambda>(n, l). is_getitem l \<longrightarrow> \<not> isl (requested_columns l))
               (map (\<lambda>(n, l). (n, narrowed_layer dsk n l)) (layers dsk))"
    unfolding list_all_iff by blast
  moreover have "map fst (map (\<lambda>(n, l). (n, narrowed_layer dsk n l)) (layers dsk)) =
                 map fst (layers dsk)"
    by (rule map_fst_map_snd)
  ultimately show ?thesis
    using assms unfolding well_formed_graph_def by (simp del: map_map list.map_comp)
qed

lemma narrowed_layer_idem:
  assumes "requested_by_getitem_dependents dsk' n = requested_by_getitem_dependents dsk n"
  shows "narrowed_layer dsk' n (narrowed_layer dsk n l) = narrowed_layer dsk n l"
proof (cases l)
  case (IOLayer io)
  show ?thesis
  proof (cases "has_project_columns (io_func io) \<and> requested_by_getitem_dependents dsk n \<noteq> {}")
    case True
    then show ?thesis
      using assms IOLayer project_columns_narrows [of io "requested_by_getitem_dependents dsk n"]
      by (simp add: narrowed_layer_def)
  next
    case False
    then show ?thesis
      using assms IOLayer by (auto simp: narrowed_layer_def)
  qed
qed (simp_all add: narrowed_layer_def)

text \<open>
  C7. On a well-formed graph the optimizer returns a graph on which it is the identity:
  running it a second time gives the graph of the first run.
\<close>

theorem optimize_iolayer_columns_idempotent:
  assumes "well_formed_graph dsk"
  shows "\<exists>dsk'. optimize_iolayer_columns dsk = Inr dsk' \<and>
               optimize_iolayer_columns dsk' = Inr dsk' \<and>
               (case optimize_iolayer_columns dsk of
                  Inl e \<Rightarrow> Inl e
                | Inr once \<Rightarrow> optimize_iolayer_columns once) = optimize_iolayer_columns dsk"
proof -
  define dsk' where "dsk' = \<lparr>layers = map (\<lambda>(n, l). (n, narrowed_layer dsk n l)) (layers dsk),
                             dependencies = dependencies dsk\<rparr>"
  have run: "optimize_iolayer_columns dsk = Inr dsk'"
    unfolding dsk'_def using assms by (rule optimize_iolayer_columns_closed_form)
  have wf': "well_formed_graph dsk'"
    unfolding dsk'_def using assms by (rule well_formed_after_optimize)
  have req: "requested_by_getitem_dependents dsk' n = requested_by_getitem_dependents dsk n" for n
    unfolding dsk'_def by (rule requested_after_optimize)
  have "map (\<lambda>(n, l). (n, narrowed_layer dsk' n l)) (layers dsk') =
        map (\<lambda>(n, l). (n, narrowed_layer dsk' n (narrowed_layer dsk n l))) (layers dsk)"
    by (simp add: dsk'_def comp_def case_prod_beta)
  also have "\<dots> = map (\<lambda>(n, l). (n, narrowed_layer dsk n l)) (layers dsk)"
    using req by (simp add: narrowed_layer_idem)
  also have "\<dots> = layers dsk'"
    by (simp add: dsk'_def)
  finally have "\<lparr>layers = map (\<lambda>(n, l). (n, narrowed_layer dsk' n l)) (layers dsk'),
                 dependencies = dependencies dsk'\<rparr> = dsk'"
    by simp
  then have again: "optimize_iolayer_columns dsk' = Inr dsk'"
    using optimize_iolayer_columns_closed_form [OF wf'] by simp
  from run again show ?thesis
    by simp
qed

theorem optimize_iolayer_columns_idempotent_witness:
  "\<exists>dsk'. optimize_iolayer_columns example_graph = Inr dsk' \<and>
          optimize_iolayer_columns dsk' = Inr dsk' \<and>
          dsk' \<noteq> example_graph"
proof -
  from optimize_iolayer_columns_idempotent [OF example_graph_well_formed] obtain dsk' where
    d: "optimize_iolayer_columns example_graph = Inr dsk'"
       "optimize_iolayer_columns dsk' = Inr dsk'"
    by blast
  have "optimize_iolayer_columns example_graph \<noteq> Inr example_graph"
    by (simp add: optimize_iolayer_columns_def pio_layer_names_def is_pio_def
        example_graph_def example_source_layer_def seed_columns_def dependents_def
        dict_get_def is_getitem_def requested_columns_def py_index_def
        layer_project_columns_def project_columns_def)
  with d show ?thesis
    by auto
qed

end
